theory Spec2Isabelle
  imports Complex_Main "HOL-Library.Word" "HOL-Library.Sublist" "HOL-Library.Multiset"
begin

unbundle bit_operations_syntax

section \<open>The embedding\<close>

subsection \<open>Bytes, UTF-8 and truncateString\<close>

definition byte :: "char \<Rightarrow> nat" where
  "byte c = of_char c"

definition RuneStart :: "char \<Rightarrow> bool" where
  "RuneStart b = (\<not> (128 \<le> byte b \<and> byte b < 192))"

datatype panic = SliceBoundsOutOfRange

fun back_off :: "string \<Rightarrow> nat \<Rightarrow> nat" where
  "back_off s 0 = 0"
| "back_off s (Suc n) = (if RuneStart (s ! Suc n) then Suc n else back_off s n)"

definition truncateString :: "string \<Rightarrow> int \<Rightarrow> panic + string" where
  "truncateString s maxBytes =
     (if int (length s) \<le> maxBytes then Inr s
      else if maxBytes < 0 then Inl SliceBoundsOutOfRange
      else Inr (take (back_off s (nat maxBytes)) s))"

definition cont :: "char \<Rightarrow> bool" where
  "cont b = (128 \<le> byte b \<and> byte b < 192)"

definition second3 :: "nat \<Rightarrow> char \<Rightarrow> bool" where
  "second3 x b = (if x = 224 then 160 \<le> byte b \<and> byte b < 192
                  else if x = 237 then 128 \<le> byte b \<and> byte b < 160
                  else cont b)"

definition second4 :: "nat \<Rightarrow> char \<Rightarrow> bool" where
  "second4 x b = (if x = 240 then 144 \<le> byte b \<and> byte b < 192
                  else if x = 244 then 128 \<le> byte b \<and> byte b < 144
                  else cont b)"

fun valid_utf8 :: "string \<Rightarrow> bool" where
  "valid_utf8 [] = True"
| "valid_utf8 (a # s) =
     (if byte a < 128 then valid_utf8 s
      else if 194 \<le> byte a \<and> byte a \<le> 223 then
        (case s of b # s' \<Rightarrow> cont b \<and> valid_utf8 s' | _ \<Rightarrow> False)
      else if 224 \<le> byte a \<and> byte a \<le> 239 then
        (case s of b # c # s' \<Rightarrow> second3 (byte a) b \<and> cont c \<and> valid_utf8 s' | _ \<Rightarrow> False)
      else if 240 \<le> byte a \<and> byte a \<le> 244 then
        (case s of b # c # d # s' \<Rightarrow>
            second4 (byte a) b \<and> cont c \<and> cont d \<and> valid_utf8 s' | _ \<Rightarrow> False)
      else False)"

subsection \<open>The data store: rows, tables and errors\<close>

text \<open>
  Identifiers are opaque values and instants are integers, at the resolution the database
  keeps. The tables are lists of rows in insertion order. String columns hold bytes.
\<close>

type_synonym uuid = nat
type_synonym time = int

record ErrorCluster =
  ec_ID :: uuid
  ec_TenantID :: uuid
  ec_Service :: string
  ec_Namespace :: string
  ec_Fingerprint :: string
  ec_Level :: string
  ec_FirstSeenAt :: time
  ec_LastSeenAt :: time
  ec_Count :: int
  ec_SampleMessage :: string
  ec_CreatedAt :: time
  ec_UpdatedAt :: time

record Job =
  job_ID :: uuid
  job_TenantID :: uuid
  job_Type :: string
  job_Status :: string
  job_ClusterID :: "uuid option"
  job_ErrorMessage :: "string option"
  job_StartedAt :: "time option"
  job_CompletedAt :: "time option"
  job_CreatedAt :: time
  job_UpdatedAt :: time

text \<open>
  What the database server can answer to a statement instead of rows. \<open>ConnFailure\<close> stands
  for every failure that does not depend on the tables modelled here (lost connection,
  cancelled context).
\<close>

datatype pg_error =
    UniqueViolation
  | CheckViolation
  | ForeignKeyViolation
  | NumericValueOutOfRange
  | StringDataRightTruncation
  | CharacterNotInRepertoire
  | ConnFailure

text \<open>
  The errors of package store: the two sentinels, \<open>fmt.Errorf("<what>: %w", err)\<close> around
  a server error, and \<open>fmt.Errorf\<close> with a plain message.
\<close>

datatype store_error =
    ErrNotFound
  | ErrDuplicateKey
  | Wrapped string pg_error
  | Errorf string

record db =
  tenants :: "uuid list"
  error_clusters :: "ErrorCluster list"
  jobs :: "Job list"

definition JobStatusPending :: string where "JobStatusPending = ''pending''"
definition JobStatusRunning :: string where "JobStatusRunning = ''running''"
definition JobStatusCompleted :: string where "JobStatusCompleted = ''completed''"
definition JobStatusFailed :: string where "JobStatusFailed = ''failed''"

subsection \<open>Column types and constraints of the migrations\<close>

definition int4 :: "int \<Rightarrow> bool" where
  "int4 n = (- 2147483648 \<le> n \<and> n \<le> 2147483647)"

definition text_ok :: "string \<Rightarrow> pg_error option" where
  "text_ok s = (if valid_utf8 s \<and> CHR 0x00 \<notin> set s then None
                else Some CharacterNotInRepertoire)"

text \<open>\<open>VARCHAR(n)\<close> counts characters: the bytes that start a rune.\<close>

definition varchar_ok :: "nat \<Rightarrow> string \<Rightarrow> pg_error option" where
  "varchar_ok n s =
     (case text_ok s of Some e \<Rightarrow> Some e
      | None \<Rightarrow> if length (filter RuneStart s) \<le> n then None
                else Some StringDataRightTruncation)"

fun first_error :: "pg_error option list \<Rightarrow> pg_error option" where
  "first_error [] = None"
| "first_error (None # es) = first_error es"
| "first_error (Some e # es) = Some e"

definition level_check :: "string \<Rightarrow> bool" where
  "level_check l = (l \<in> set [''ERROR'', ''WARN'', ''FATAL'', ''CRITICAL''])"

text \<open>
  The checks on the row proposed for insertion into \<open>error_clusters\<close>, which the server
  makes before it looks for a conflict: the column types, then the \<open>CHECK\<close> on \<open>level\<close>.
\<close>

definition proposed_row_error :: "ErrorCluster \<Rightarrow> pg_error option" where
  "proposed_row_error c =
     first_error
       [varchar_ok 255 (ec_Service c),
        varchar_ok 255 (ec_Namespace c),
        varchar_ok 64 (ec_Fingerprint c),
        varchar_ok 16 (ec_Level c),
        if int4 (ec_Count c) then None else Some NumericValueOutOfRange,
        text_ok (ec_SampleMessage c),
        if level_check (ec_Level c) then None else Some CheckViolation]"

subsection \<open>UpsertErrorCluster\<close>

definition cluster_key :: "ErrorCluster \<Rightarrow> uuid \<times> string \<times> string \<times> string" where
  "cluster_key c = (ec_TenantID c, ec_Service c, ec_Namespace c, ec_Fingerprint c)"

text \<open>
  \<open>ON CONFLICT (tenant_id, service, namespace, fingerprint) DO UPDATE SET
  count = error_clusters.count + EXCLUDED.count,
  last_seen_at = GREATEST(error_clusters.last_seen_at, EXCLUDED.last_seen_at),
  updated_at = NOW()\<close>: no other column of the stored row is assigned.
\<close>

definition on_conflict_update :: "time \<Rightarrow> ErrorCluster \<Rightarrow> ErrorCluster \<Rightarrow> ErrorCluster" where
  "on_conflict_update now old excluded =
     old\<lparr>ec_Count := ec_Count old + ec_Count excluded,
         ec_LastSeenAt := max (ec_LastSeenAt old) (ec_LastSeenAt excluded),
         ec_UpdatedAt := now\<rparr>"

definition upsert_statement ::
  "time \<Rightarrow> db \<Rightarrow> ErrorCluster \<Rightarrow> pg_error + (ErrorCluster \<times> db)" where
  "upsert_statement now d c =
     (case proposed_row_error c of
        Some e \<Rightarrow> Inl e
      | None \<Rightarrow>
         (case find (\<lambda>r. cluster_key r = cluster_key c) (error_clusters d) of
            Some old \<Rightarrow>
              (let merged = on_conflict_update now old c in
               if \<not> int4 (ec_Count merged) then Inl NumericValueOutOfRange
               else Inr (merged,
                         d\<lparr>error_clusters :=
                              map (\<lambda>r. if cluster_key r = cluster_key c then merged else r)
                                  (error_clusters d)\<rparr>))
          | None \<Rightarrow>
              if ec_ID c \<in> set (map ec_ID (error_clusters d)) then Inl UniqueViolation
              else if ec_TenantID c \<notin> set (tenants d) then Inl ForeignKeyViolation
              else Inr (c, d\<lparr>error_clusters := error_clusters d @ [c]\<rparr>)))"

text \<open>
  \<open>fault\<close> is the failure of the round trip to the server, if any; \<open>now\<close> is the
  server's \<open>NOW()\<close>. The result is the row scanned from \<open>RETURNING\<close>, with the new tables.
\<close>

definition UpsertErrorCluster ::
  "pg_error option \<Rightarrow> time \<Rightarrow> db \<Rightarrow> ErrorCluster \<Rightarrow> store_error + (ErrorCluster \<times> db)" where
  "UpsertErrorCluster fault now d cluster =
     (case fault of
        Some e \<Rightarrow> Inl (Wrapped ''upsert error cluster'' e)
      | None \<Rightarrow>
         (case upsert_statement now d cluster of
            Inl e \<Rightarrow> Inl (Wrapped ''upsert error cluster'' e)
          | Inr res \<Rightarrow> Inr res))"

text \<open>
  A sequence of calls, each with its own round-trip outcome and server time. A call that
  fails leaves the tables as they were; the outcomes are returned in call order.
\<close>

record upsert_call =
  call_fault :: "pg_error option"
  call_now :: time
  call_cluster :: ErrorCluster

fun upsert_sequence ::
  "db \<Rightarrow> upsert_call list \<Rightarrow> (store_error + ErrorCluster) list \<times> db" where
  "upsert_sequence d [] = ([], d)"
| "upsert_sequence d (k # ks) =
     (case UpsertErrorCluster (call_fault k) (call_now k) d (call_cluster k) of
        Inl e \<Rightarrow> (let (outs, d') = upsert_sequence d ks in (Inl e # outs, d'))
      | Inr (row, d1) \<Rightarrow> (let (outs, d') = upsert_sequence d1 ks in (Inr row # outs, d')))"

text \<open>The clusters of the calls that succeeded, in call order.\<close>

fun contributed :: "upsert_call list \<Rightarrow> (store_error + ErrorCluster) list \<Rightarrow> ErrorCluster list" where
  "contributed (k # ks) (Inr row # outs) = call_cluster k # contributed ks outs"
| "contributed (k # ks) (Inl e # outs) = contributed ks outs"
| "contributed _ _ = []"

subsection \<open>UpdateJobStatus\<close>

record jobUpdateParams =
  ErrorMessage :: "string option"
  ClusterID :: "uuid option"

datatype JobUpdateOption = WithErrorMessage string | WithClusterID uuid

fun apply_option :: "jobUpdateParams \<Rightarrow> JobUpdateOption \<Rightarrow> jobUpdateParams" where
  "apply_option p (WithErrorMessage msg) = p\<lparr>ErrorMessage := Some msg\<rparr>"
| "apply_option p (WithClusterID i) = p\<lparr>ClusterID := Some i\<rparr>"

definition validTransitions :: "string \<rightharpoonup> string list" where
  "validTransitions =
     [''pending'' \<mapsto> [''running''],
      ''running'' \<mapsto> [''completed'', ''failed'']]"

text \<open>Indexing a Go map with a missing key gives the nil slice, over which the loop does nothing.\<close>

definition allowed_from :: "string \<Rightarrow> string list" where
  "allowed_from currentStatus =
     (case validTransitions currentStatus of None \<Rightarrow> [] | Some l \<Rightarrow> l)"

text \<open>The \<open>UPDATE jobs SET ... WHERE id = $1\<close> assembled by the function, on one row.\<close>

definition update_job_row :: "time \<Rightarrow> string \<Rightarrow> jobUpdateParams \<Rightarrow> Job \<Rightarrow> Job" where
  "update_job_row now status params j =
     j\<lparr>job_Status := status,
       job_UpdatedAt := now,
       job_StartedAt := (if status = ''running'' then Some now else job_StartedAt j),
       job_CompletedAt :=
         (if status = ''completed'' \<or> status = ''failed'' then Some now else job_CompletedAt j),
       job_ErrorMessage :=
         (case ErrorMessage params of Some m \<Rightarrow> Some m | None \<Rightarrow> job_ErrorMessage j),
       job_ClusterID :=
         (case ClusterID params of Some c \<Rightarrow> Some c | None \<Rightarrow> job_ClusterID j)\<rparr>"

definition update_statement_error :: "db \<Rightarrow> jobUpdateParams \<Rightarrow> pg_error option" where
  "update_statement_error d params =
     first_error
       [case ErrorMessage params of Some m \<Rightarrow> text_ok m | None \<Rightarrow> None,
        case ClusterID params of
          Some c \<Rightarrow> if c \<in> set (map ec_ID (error_clusters d)) then None
                    else Some ForeignKeyViolation
        | None \<Rightarrow> None]"

text \<open>
  \<open>fault_select\<close> and \<open>fault_update\<close> are the failures of the two round trips, if any.
\<close>

definition UpdateJobStatus ::
  "pg_error option \<Rightarrow> pg_error option \<Rightarrow> time \<Rightarrow> db \<Rightarrow> uuid \<Rightarrow> string \<Rightarrow> JobUpdateOption list
     \<Rightarrow> store_error + db" where
  "UpdateJobStatus fault_select fault_update now d ident status opts =
     (let params = foldl apply_option \<lparr>ErrorMessage = None, ClusterID = None\<rparr> opts in
      case fault_select of
        Some e \<Rightarrow> Inl (Wrapped ''get job status'' e)
      | None \<Rightarrow>
         (case find (\<lambda>j. job_ID j = ident) (jobs d) of
            None \<Rightarrow> Inl ErrNotFound
          | Some j \<Rightarrow>
             (let currentStatus = job_Status j in
              if status \<notin> set (allowed_from currentStatus) then
                Inl (Errorf (''invalid job status transition: '' @ currentStatus
                               @ '' -> '' @ status))
              else
                (case first_error [fault_update, update_statement_error d params] of
                   Some e \<Rightarrow> Inl (Wrapped ''update job status'' e)
                 | None \<Rightarrow>
                     Inr (d\<lparr>jobs := map (\<lambda>r. if job_ID r = ident
                                               then update_job_row now status params r else r)
                                        (jobs d)\<rparr>)))))"

section \<open>Properties\<close>

lemma cont_not_RuneStart: "cont b \<Longrightarrow> \<not> RuneStart b"
  by (simp add: cont_def RuneStart_def)

lemma second3_cont: "second3 x b \<Longrightarrow> cont b"
  by (auto simp: second3_def cont_def split: if_splits)

lemma second4_cont: "second4 x b \<Longrightarrow> cont b"
  by (auto simp: second4_def cont_def split: if_splits)

lemma valid_utf8_take:
  "valid_utf8 s \<Longrightarrow> n \<le> length s \<Longrightarrow> n = length s \<or> RuneStart (s ! n)
     \<Longrightarrow> valid_utf8 (take n s)"
proof (induction s arbitrary: n rule: valid_utf8.induct)
  case 1
  then show ?case by simp
next
  case (2 a s)
  show ?case
  proof (cases n)
    case 0
    then show ?thesis by simp
  next
    case (Suc k)
    note n = Suc
    consider (one) "byte a < 128"
      | (two) "\<not> byte a < 128" "194 \<le> byte a \<and> byte a \<le> 223"
      | (three) "\<not> byte a < 128" "\<not> (194 \<le> byte a \<and> byte a \<le> 223)" "224 \<le> byte a \<and> byte a \<le> 239"
      | (four) "\<not> byte a < 128" "\<not> (194 \<le> byte a \<and> byte a \<le> 223)" "\<not> (224 \<le> byte a \<and> byte a \<le> 239)"
               "240 \<le> byte a \<and> byte a \<le> 244"
      | (bad) "\<not> byte a < 128" "\<not> (194 \<le> byte a \<and> byte a \<le> 223)" "\<not> (224 \<le> byte a \<and> byte a \<le> 239)"
               "\<not> (240 \<le> byte a \<and> byte a \<le> 244)"
      by blast
    then show ?thesis
    proof cases
      case one
      with "2.prems" n "2.IH"(1)[of k] show ?thesis by auto
    next
      case two
      with "2.prems"(1) obtain b s' where s: "s = b # s'" and b: "cont b" and v: "valid_utf8 s'"
        by (auto split: list.splits)
      show ?thesis
      proof (cases k)
        case 0
        with n s b "2.prems" show ?thesis by (auto simp: cont_not_RuneStart)
      next
        case (Suc j)
        with n s "2.prems" have "j \<le> length s'" "j = length s' \<or> RuneStart (s' ! j)" by auto
        from "2.IH"(2)[OF two s v this] two b s n Suc show ?thesis by simp
      qed
    next
      case three
      with "2.prems"(1) obtain b c s' where s: "s = b # c # s'" and b: "second3 (byte a) b"
        and c: "cont c" and v: "valid_utf8 s'"
        by (auto split: list.splits)
      have nb: "\<not> RuneStart b" using b second3_cont cont_not_RuneStart by blast
      have nc: "\<not> RuneStart c" using c cont_not_RuneStart by blast
      show ?thesis
      proof (cases k)
        case 0
        with n s nb "2.prems" show ?thesis by auto
      next
        case k: (Suc j)
        show ?thesis
        proof (cases j)
          case 0
          with n k s nc "2.prems" show ?thesis by auto
        next
          case (Suc i)
          with n k s "2.prems" have "i \<le> length s'" "i = length s' \<or> RuneStart (s' ! i)" by auto
          from "2.IH"(3)[OF three s refl v this] three b c s n k Suc show ?thesis by simp
        qed
      qed
    next
      case four
      with "2.prems"(1) obtain b c d s' where s: "s = b # c # d # s'" and b: "second4 (byte a) b"
        and c: "cont c" and d: "cont d" and v: "valid_utf8 s'"
        by (auto split: list.splits)
      have nb: "\<not> RuneStart b" using b second4_cont cont_not_RuneStart by blast
      have nc: "\<not> RuneStart c" using c cont_not_RuneStart by blast
      have nd: "\<not> RuneStart d" using d cont_not_RuneStart by blast
      show ?thesis
      proof (cases k)
        case 0
        with n s nb "2.prems" show ?thesis by auto
      next
        case k: (Suc j)
        show ?thesis
        proof (cases j)
          case 0
          with n k s nc "2.prems" show ?thesis by auto
        next
          case j: (Suc i)
          show ?thesis
          proof (cases i)
            case 0
            with n k j s nd "2.prems" show ?thesis by auto
          next
            case (Suc h)
            with n k j s "2.prems" have "h \<le> length s'" "h = length s' \<or> RuneStart (s' ! h)" by auto
            from "2.IH"(4)[OF four s refl refl v this] four b c d s n k j Suc show ?thesis by simp
          qed
        qed
      qed
    next
      case bad
      with "2.prems"(1) show ?thesis by simp
    qed
  qed
qed

lemma back_off_le: "back_off s n \<le> n"
  by (induction n) auto

lemma back_off_boundary: "back_off s n = 0 \<or> RuneStart (s ! back_off s n)"
  by (induction n) auto


lemma back_off_take_valid:
  assumes "valid_utf8 s" "n < length s"
  shows "valid_utf8 (take (back_off s n) s)"
proof -
  have "back_off s n \<le> length s" using back_off_le[of s n] assms(2) by simp
  moreover have "back_off s n = length s \<or> RuneStart (s ! back_off s n) \<or> back_off s n = 0"
    using back_off_boundary[of s n] by auto
  ultimately show ?thesis
    using valid_utf8_take[OF assms(1), of "back_off s n"] by (cases "back_off s n = 0") auto
qed

subsection \<open>C9: truncateString keeps a prefix that ends on a rune boundary\<close>

text \<open>
  Claim C9. For every valid UTF-8 string \<open>s\<close> and every \<open>maxBytes \<ge> 0\<close>,
  \<open>truncateString s maxBytes\<close> returns (it does not panic) a prefix of \<open>s\<close> of at most
  \<open>maxBytes\<close> bytes that ends on a rune boundary: the prefix is itself valid UTF-8 and is
  either all of \<open>s\<close> or is followed in \<open>s\<close> by a byte that starts a rune. When \<open>s\<close> has at
  most \<open>maxBytes\<close> bytes the result is \<open>s\<close>. The two copies of the function, in packages
  analysis and ai, have the same text.
\<close>

theorem truncateString_rune_prefix:
  assumes "valid_utf8 s" and "0 \<le> maxBytes"
  shows "\<exists>r. truncateString s maxBytes = Inr r \<and> prefix r s \<and> int (length r) \<le> maxBytes
           \<and> valid_utf8 r \<and> (r = s \<or> RuneStart (s ! length r))
           \<and> (int (length s) \<le> maxBytes \<longrightarrow> r = s)"
proof (cases "int (length s) \<le> maxBytes")
  case True
  then show ?thesis using assms by (simp add: truncateString_def)
next
  case False
  define k where "k = back_off s (nat maxBytes)"
  have lt: "nat maxBytes < length s" using False assms(2) by linarith
  have kle: "k \<le> nat maxBytes" unfolding k_def by (rule back_off_le)
  have r: "truncateString s maxBytes = Inr (take k s)"
    using False assms(2) by (simp add: truncateString_def k_def)
  have len: "length (take k s) = k" using kle lt by simp
  have v: "valid_utf8 (take k s)" unfolding k_def by (rule back_off_take_valid[OF assms(1) lt])
  have b: "take k s = s \<or> RuneStart (s ! k)"
  proof (cases "k = 0")
    case True
    show ?thesis
    proof (cases s)
      case Nil then show ?thesis by simp
    next
      case (Cons a t)
      have "RuneStart a" using assms(1) Cons
        by (auto simp: RuneStart_def split: if_splits)
      then show ?thesis using True Cons by simp
    qed
  next
    case False
    then show ?thesis using back_off_boundary[of s "nat maxBytes"] k_def by auto
  qed
  show ?thesis using r len v b kle False assms(2) by (auto simp: take_is_prefix)
qed

theorem truncateString_rune_prefix_witness:
  "valid_utf8 [CHR ''a'', CHR 0xE2, CHR 0x82, CHR 0xAC, CHR ''b''] \<and> (0::int) \<le> 3
   \<and> truncateString [CHR ''a'', CHR 0xE2, CHR 0x82, CHR 0xAC, CHR ''b''] 3 = Inr ''a''
   \<and> (\<exists>r. truncateString [CHR ''a'', CHR 0xE2, CHR 0x82, CHR 0xAC, CHR ''b''] 3 = Inr r
         \<and> prefix r [CHR ''a'', CHR 0xE2, CHR 0x82, CHR 0xAC, CHR ''b'']
         \<and> int (length r) \<le> 3 \<and> valid_utf8 r
         \<and> (r = [CHR ''a'', CHR 0xE2, CHR 0x82, CHR 0xAC, CHR ''b'']
              \<or> RuneStart ([CHR ''a'', CHR 0xE2, CHR 0x82, CHR 0xAC, CHR ''b''] ! length r))
         \<and> (int (length [CHR ''a'', CHR 0xE2, CHR 0x82, CHR 0xAC, CHR ''b'']) \<le> 3
              \<longrightarrow> r = [CHR ''a'', CHR 0xE2, CHR 0x82, CHR 0xAC, CHR ''b'']))"
proof -
  have v: "valid_utf8 [CHR ''a'', CHR 0xE2, CHR 0x82, CHR 0xAC, CHR ''b'']"
    by code_simp
  have z: "(0::int) \<le> 3"
    by simp
  have t: "truncateString [CHR ''a'', CHR 0xE2, CHR 0x82, CHR 0xAC, CHR ''b''] 3 = Inr ''a''"
    by code_simp
  from v z t truncateString_rune_prefix[OF v z] show ?thesis
    by blast
qed

end
